theory Spec2Isabelle
  imports Main "HOL-Library.Word" "HOL-Library.AList"
begin

section \<open>Data model of the exchanger (exchanger.go)\<close>

text \<open>
  A Go \<open>error\<close> value is modelled by its message, the text that \<open>fmt.Errorf\<close>
  builds; the nil error is \<open>None\<close> of \<open>error option\<close>.
\<close>

type_synonym error = string

text \<open>\<open>type Level uint8\<close>.\<close>

type_synonym Level = "8 word"

text \<open>
  A value of type \<open>map[string]string\<close> is a reference: nil (\<open>None\<close>) or the address
  of a map object in the store. The store is the list of all map objects allocated so
  far, an address is an index into it, and a map object is the list of its key/value
  pairs in the order in which a \<open>range\<close> loop visits them (Go leaves that order open,
  so nothing below depends on it).
\<close>

type_synonym gomap = "(string \<times> string) list"
type_synonym mapref = "nat option"
type_synonym store = "gomap list"

text \<open>
  \<open>time.Time\<close> belongs to the Go standard library. An instant is held as the
  \<open>int64\<close> number of seconds since the Unix epoch together with the nanoseconds within
  that second (0 to 999999999); \<open>UnixNano\<close> computes \<open>unixSec * 1e9 + nsec\<close> in
  \<open>int64\<close> arithmetic, which wraps around.
\<close>

record Time =
  unixSec :: int
  nsec :: int

definition wrap_int64 :: "int \<Rightarrow> int" where
  "wrap_int64 x = (x + 2 ^ 63) mod 2 ^ 64 - 2 ^ 63"

definition UnixNano :: "Time \<Rightarrow> int" where
  "UnixNano t = wrap_int64 (unixSec t * 1000000000 + nsec t)"

text \<open>
  \<open>strconv.FormatInt(i, 10)\<close> of the standard library: the decimal digits of the
  magnitude, taken from the digit table, after a minus sign when \<open>i\<close> is negative.
\<close>

definition digits :: string where
  "digits = ''0123456789abcdefghijklmnopqrstuvwxyz''"

fun formatBits :: "nat \<Rightarrow> string" where
  "formatBits u = (if u < 10 then [digits ! u] else formatBits (u div 10) @ [digits ! (u mod 10)])"

declare formatBits.simps [simp del]

definition FormatInt10 :: "int \<Rightarrow> string" where
  "FormatInt10 i = (if i < 0 then CHR ''-'' # formatBits (nat (- i)) else formatBits (nat i))"

record LogEntry =
  Labels :: mapref
  Level :: Level
  Timestamp :: Time
  LogLine :: string

text \<open>
  \<open>Entries []*LogEntry\<close>: a nil pointer is \<open>None\<close>. The code only takes the length of
  the slice and ranges over it, so a nil slice of entries is the empty list.
\<close>

record LogStream =
  Level :: Level
  Labels :: mapref
  Entries :: "LogEntry option list"

text \<open>\<open>Values [][2]string\<close>: an array of two strings is a pair.\<close>

record lokiDTOJsonV1Stream =
  Stream :: mapref
  Values :: "(string \<times> string) list"

record lokiDTOJsonV1PushRequest =
  Streams :: "lokiDTOJsonV1Stream list"

record PongResponse =
  IsReady :: bool

text \<open>
  \<open>net/http\<close>: a request with its header as a list of key/value lines, and a response
  whose body is a reader: the chunks it delivers, ended by EOF (\<open>None\<close>) or by a read
  error.
\<close>

record Request =
  Method :: string
  URL :: string
  Header :: "(string \<times> string) list"
  Body :: string
  Timeout :: "nat option"

datatype reader = Reader "string list" "error option"

record Response =
  StatusCode :: int
  Body :: reader

text \<open>\<open>*http.Client\<close>: what \<open>Do\<close> answers to a request, a transport error or a response.\<close>

record Client =
  Do :: "Request \<Rightarrow> error + Response"

record lokiJsonV1Exchanger =
  restClient :: Client
  useGzipCompression :: bool
  lokiAddress :: string
  username :: string
  password :: string

section \<open>The stream transformer\<close>

text \<open>The inner loop of \<open>transformLogStreamsToDTO\<close> (lines 188 to 197), appending to \<open>Values\<close>.\<close>

fun appendValues :: "LogEntry option list \<Rightarrow> lokiDTOJsonV1Stream \<Rightarrow> lokiDTOJsonV1Stream" where
  "appendValues [] lokiStream = lokiStream"
| "appendValues (None # es) lokiStream = appendValues es lokiStream"
| "appendValues (Some e # es) lokiStream =
     appendValues es
       (lokiStream\<lparr>Values := Values lokiStream @ [(FormatInt10 (UnixNano (Timestamp e)), LogLine e)]\<rparr>)"

text \<open>The outer loop (lines 178 to 200), appending to \<open>Streams\<close>.\<close>

fun appendStreams :: "LogStream option list \<Rightarrow> lokiDTOJsonV1PushRequest \<Rightarrow> lokiDTOJsonV1PushRequest" where
  "appendStreams [] pushRequest = pushRequest"
| "appendStreams (None # ss) pushRequest = appendStreams ss pushRequest"
| "appendStreams (Some s # ss) pushRequest =
     (if length (Entries s) = 0 then appendStreams ss pushRequest
      else appendStreams ss
        (pushRequest\<lparr>Streams := Streams pushRequest @
           [appendValues (Entries s) \<lparr>Stream = LogStream.Labels s, Values = []\<rparr>]\<rparr>))"

text \<open>
  \<open>streams []*LogStream\<close>: the nil slice is \<open>None\<close>, a nil stream pointer is \<open>None\<close>
  in the list; the result is a pointer, nil being \<open>None\<close>.
\<close>

definition transformLogStreamsToDTO ::
  "lokiJsonV1Exchanger \<Rightarrow> LogStream option list option \<Rightarrow> lokiDTOJsonV1PushRequest option" where
  "transformLogStreamsToDTO rcv streams =
     (case streams of
        None \<Rightarrow> None
      | Some ss \<Rightarrow> Some (appendStreams ss \<lparr>Streams = []\<rparr>))"

text \<open>
  The words of the specification. A retained entry is a non-absent entry; a retained
  stream is a present stream whose entry list is not empty (the test of line 179); the
  value pair of an entry and the StreamDTO of a stream are what the two loops build.
\<close>

definition retainedEntries :: "LogStream \<Rightarrow> LogEntry list" where
  "retainedEntries s = [e. Some e \<leftarrow> Entries s]"

definition retainedStreams :: "LogStream option list \<Rightarrow> LogStream list" where
  "retainedStreams ss = [s. Some s \<leftarrow> ss, Entries s \<noteq> []]"

definition valuePair :: "LogEntry \<Rightarrow> string \<times> string" where
  "valuePair e = (FormatInt10 (UnixNano (Timestamp e)), LogLine e)"

definition streamDTO :: "LogStream \<Rightarrow> lokiDTOJsonV1Stream" where
  "streamDTO s = \<lparr>Stream = LogStream.Labels s, Values = map valuePair (retainedEntries s)\<rparr>"

text \<open>
  The nanoseconds between the Unix epoch and an instant, as an unbounded integer, and the
  range of \<open>int64\<close>.
\<close>

definition nanosSinceEpoch :: "Time \<Rightarrow> int" where
  "nanosSinceEpoch t = unixSec t * 1000000000 + nsec t"

definition inInt64 :: "int \<Rightarrow> bool" where
  "inInt64 x = (- (2 ^ 63) \<le> x \<and> x < 2 ^ 63)"

text \<open>
  A base-10 integer string: decimal digits only, no leading zero, read back to the
  number; a minus sign in front exactly for a negative number.
\<close>

definition digitVal :: "char \<Rightarrow> nat" where
  "digitVal c = of_char c - 48"

definition decimalValue :: "string \<Rightarrow> nat" where
  "decimalValue s = foldl (\<lambda>a c. a * 10 + digitVal c) 0 s"

definition isDigit :: "char \<Rightarrow> bool" where
  "isDigit c = (c \<in> set ''0123456789'')"

definition canonicalDigits :: "string \<Rightarrow> nat \<Rightarrow> bool" where
  "canonicalDigits ds m =
     (ds \<noteq> [] \<and> list_all isDigit ds \<and> (length ds = 1 \<or> hd ds \<noteq> CHR ''0'') \<and> decimalValue ds = m)"

definition isDecimalOf :: "string \<Rightarrow> int \<Rightarrow> bool" where
  "isDecimalOf t n =
     (if n < 0 then (case t of [] \<Rightarrow> False | c # cs \<Rightarrow> c = CHR ''-'' \<and> canonicalDigits cs (nat (- n)))
      else canonicalDigits t (nat n))"

section \<open>The HTTP exchanger\<close>

text \<open>
  What the standard library and the rest of the package do for the exchanger is a
  parameter:
  \<^item> \<open>json_Encode\<close>: the bytes \<open>json.NewEncoder(w).Encode(v)\<close> writes, and its error;
  \<^item> \<open>gzip_Compress\<close>: what a gzip writer leaves in the buffer for the bytes written
    to it once it is closed, and the error of \<open>Close\<close>;
  \<^item> \<open>url_Parse\<close>: the error of parsing an address, \<open>None\<close> when it is well formed;
  \<^item> \<open>base64_Encode\<close>: the base64 text of \<open>Request.SetBasicAuth\<close>;
  \<^item> \<open>defaultSendBatchTimeout\<close>: the constant of the package, declared outside
    these files.
\<close>

record Env =
  json_Encode :: "lokiDTOJsonV1PushRequest option \<Rightarrow> string \<times> error option"
  gzip_Compress :: "string \<Rightarrow> string \<times> error option"
  url_Parse :: "string \<Rightarrow> error option"
  base64_Encode :: "string \<Rightarrow> string"
  defaultSendBatchTimeout :: nat

definition requestTimeout :: "Env \<Rightarrow> nat" where
  "requestTimeout env = defaultSendBatchTimeout env"

text \<open>
  \<open>http.NewRequest\<close> and \<open>http.NewRequestWithContext\<close>: a fresh request with an empty
  header, or the error of an address that does not parse.
\<close>

definition http_NewRequest :: "Env \<Rightarrow> nat option \<Rightarrow> string \<Rightarrow> string \<Rightarrow> string \<Rightarrow> error + Request" where
  "http_NewRequest env timeout method url body =
     (case url_Parse env url of
        Some err \<Rightarrow> Inl err
      | None \<Rightarrow> Inr \<lparr>Method = method, URL = url, Header = [], Body = body, Timeout = timeout\<rparr>)"

definition Header_Add :: "Request \<Rightarrow> string \<Rightarrow> string \<Rightarrow> Request" where
  "Header_Add req key val = req\<lparr>Header := Header req @ [(key, val)]\<rparr>"

definition Header_Values :: "Request \<Rightarrow> string \<Rightarrow> string list" where
  "Header_Values req key = map snd (filter (\<lambda>kv. fst kv = key) (Header req))"

definition Request_SetBasicAuth :: "Env \<Rightarrow> Request \<Rightarrow> string \<Rightarrow> string \<Rightarrow> Request" where
  "Request_SetBasicAuth env req user pass =
     req\<lparr>Header := filter (\<lambda>kv. fst kv \<noteq> ''Authorization'') (Header req) @
        [(''Authorization'', ''Basic '' @ base64_Encode env (user @ '':'' @ pass))]\<rparr>"

text \<open>\<open>io.ReadAll\<close>: reads chunk after chunk until EOF or an error, and returns what it read.\<close>

fun readChunks :: "string list \<Rightarrow> string \<Rightarrow> string" where
  "readChunks [] acc = acc"
| "readChunks (c # cs) acc = readChunks cs (acc @ c)"

fun io_ReadAll :: "reader \<Rightarrow> string \<times> error option" where
  "io_ReadAll (Reader chunks err) = (readChunks chunks [], err)"

definition isSuccessHTTPCode :: "lokiJsonV1Exchanger \<Rightarrow> int \<Rightarrow> bool" where
  "isSuccessHTTPCode rcv code = (199 < code \<and> code < 300)"

definition SetBasicAuth :: "lokiJsonV1Exchanger \<Rightarrow> string \<Rightarrow> string \<Rightarrow> lokiJsonV1Exchanger" where
  "SetBasicAuth rcv u p = rcv\<lparr>username := u, password := p\<rparr>"

text \<open>
  The function literal of \<open>Push\<close> (lines 96 to 107): the content of \<open>buf\<close> when it
  returns, and the error it returns. The error of the deferred \<open>gw.Close()\<close> is dropped
  there.
\<close>

definition encodeStreams :: "Env \<Rightarrow> lokiJsonV1Exchanger \<Rightarrow> LogStream option list option \<Rightarrow> string \<times> error option" where
  "encodeStreams env rcv streams =
     (let (written, err) = json_Encode env (transformLogStreamsToDTO rcv streams);
          buf = (if useGzipCompression rcv then fst (gzip_Compress env written) else written)
      in (buf, case err of
                 Some e \<Rightarrow> Some (''failed to encode streams message: '' @ e)
               | None \<Rightarrow> None))"

text \<open>
  \<open>Push\<close> up to the call of \<open>Do\<close> (lines 94 to 125): the request it hands to the
  transport, or the error it returns before. The literal is called as a statement, so
  only the buffer is taken from it.
\<close>

definition newPushRequest :: "Env \<Rightarrow> lokiJsonV1Exchanger \<Rightarrow> LogStream option list option \<Rightarrow> error + Request" where
  "newPushRequest env rcv streams =
     (let buf = fst (encodeStreams env rcv streams) in
      case http_NewRequest env None ''POST'' (lokiAddress rcv @ ''/loki/api/v1/push'') buf of
        Inl err \<Rightarrow> Inl (''failed to create request: '' @ err)
      | Inr req \<Rightarrow>
          (let req1 = Header_Add req ''Content-Type'' ''application/json'';
               req2 = (if useGzipCompression rcv then Header_Add req1 ''Content-Encoding'' ''gzip'' else req1);
               req3 = (if username rcv \<noteq> [] \<and> password rcv \<noteq> []
                       then Request_SetBasicAuth env req2 (username rcv) (password rcv) else req2)
           in Inr req3))"

text \<open>\<open>Push\<close>: \<open>None\<close> is the nil error.\<close>

definition Push :: "Env \<Rightarrow> lokiJsonV1Exchanger \<Rightarrow> LogStream option list option \<Rightarrow> error option" where
  "Push env rcv streams =
     (case newPushRequest env rcv streams of
        Inl err \<Rightarrow> Some err
      | Inr req \<Rightarrow>
          (case Do (restClient rcv) req of
             Inl err \<Rightarrow> Some (''failed to send push message: '' @ err)
           | Inr resp \<Rightarrow>
               if \<not> isSuccessHTTPCode rcv (StatusCode resp) then
                 (let messageBody = fst (io_ReadAll (Response.Body resp))
                  in Some (''unexpected response code [code='' @ FormatInt10 (StatusCode resp) @
                           ''], message: '' @ messageBody))
               else None))"

text \<open>\<open>Ping\<close>: the pair of the pointer it returns and the error.\<close>

definition Ping :: "Env \<Rightarrow> lokiJsonV1Exchanger \<Rightarrow> PongResponse option \<times> error option" where
  "Ping env rcv =
     (case http_NewRequest env (Some (requestTimeout env)) ''GET'' (lokiAddress rcv @ ''/ready'') [] of
        Inl err \<Rightarrow> (None, Some (''unable to build ping request: '' @ err))
      | Inr pingRequest \<Rightarrow>
          (case Do (restClient rcv) pingRequest of
             Inl err \<Rightarrow> (None, Some (''pong is not received: '' @ err))
           | Inr resp \<Rightarrow>
               (let pong = \<lparr>IsReady = False\<rparr>;
                    pong' = (if isSuccessHTTPCode rcv (StatusCode resp) then pong\<lparr>IsReady := True\<rparr> else pong)
                in (Some pong', None))))"

section \<open>Label utilities (shared.go)\<close>

text \<open>
  Reading through a map reference: a nil map reads as the empty map. \<open>m[key]\<close> is the
  empty string for a key that is not there.
\<close>

definition validRef :: "store \<Rightarrow> mapref \<Rightarrow> bool" where
  "validRef h r = (case r of None \<Rightarrow> True | Some a \<Rightarrow> a < length h)"

definition deref :: "store \<Rightarrow> mapref \<Rightarrow> gomap" where
  "deref h r = (case r of None \<Rightarrow> [] | Some a \<Rightarrow> if a < length h then h ! a else [])"

definition map_index :: "gomap \<Rightarrow> string \<Rightarrow> string" where
  "map_index m key = (case map_of m key of None \<Rightarrow> [] | Some v \<Rightarrow> v)"

text \<open>\<open>make(map[string]string, n)\<close>: a new, empty map object; the size is a hint only.\<close>

definition make_map :: "store \<Rightarrow> nat \<Rightarrow> store \<times> nat" where
  "make_map h n = (h @ [[]], length h)"

text \<open>\<open>dst[key] = v\<close> on the map object at address \<open>dst\<close>.\<close>

definition map_assign :: "store \<Rightarrow> nat \<Rightarrow> string \<Rightarrow> string \<Rightarrow> store" where
  "map_assign h dst key v = (if dst < length h then h[dst := AList.update key v (h ! dst)] else h)"

text \<open>The inner loop of \<open>copyAndMergeLabels\<close> (lines 24 to 26) over the keys of \<open>srcs[i]\<close>.\<close>

fun copyKeys :: "string list \<Rightarrow> mapref \<Rightarrow> nat \<Rightarrow> store \<Rightarrow> store" where
  "copyKeys [] src dst h = h"
| "copyKeys (key # keys) src dst h =
     copyKeys keys src dst (map_assign h dst key (map_index (deref h src) key))"

text \<open>The outer loop (lines 23 to 27).\<close>

fun mergeLoop :: "mapref list \<Rightarrow> nat \<Rightarrow> store \<Rightarrow> store" where
  "mergeLoop [] dst h = h"
| "mergeLoop (src # srcs) dst h =
     mergeLoop srcs dst (copyKeys (map fst (deref h src)) src dst h)"

definition copyAndMergeLabels :: "store \<Rightarrow> mapref list \<Rightarrow> store \<times> mapref" where
  "copyAndMergeLabels h srcs =
     (let predictedLength = fold (\<lambda>src n. n + length (deref h src)) srcs 0;
          (h1, dst) = make_map h predictedLength
      in (mergeLoop srcs dst h1, Some dst))"

text \<open>
  The words of the specification: the value of a key in the last input that contains
  it, and the union of the inputs taken from left to right.
\<close>

definition lastContaining :: "gomap list \<Rightarrow> string \<Rightarrow> string option" where
  "lastContaining ms k =
     (let xs = filter (\<lambda>m. map_of m k \<noteq> None) ms in if xs = [] then None else map_of (last xs) k)"

definition unionLeftToRight :: "gomap list \<Rightarrow> (string \<rightharpoonup> string)" where
  "unionLeftToRight ms = foldl (++) Map.empty (map map_of ms)"

section \<open>Concrete inputs\<close>

text \<open>
  A mock transport that answers every request with one status code and body, an
  exchanger on top of it, and an environment in which encoding succeeds and every address
  parses.
\<close>

definition mockTransport :: "int \<Rightarrow> string list \<Rightarrow> Client" where
  "mockTransport code chunks = \<lparr>Do = (\<lambda>req. Inr \<lparr>StatusCode = code, Body = Reader chunks None\<rparr>)\<rparr>"

definition mockExchanger :: "int \<Rightarrow> string list \<Rightarrow> lokiJsonV1Exchanger" where
  "mockExchanger code chunks =
     \<lparr>restClient = mockTransport code chunks, useGzipCompression = False,
      lokiAddress = ''http://loki:3100'', username = [], password = []\<rparr>"

definition mockEnv :: Env where
  "mockEnv =
     \<lparr>json_Encode = (\<lambda>v. (''{}'', None)), gzip_Compress = (\<lambda>b. (b, None)),
      url_Parse = (\<lambda>u. None), base64_Encode = (\<lambda>s. s), defaultSendBatchTimeout = 5\<rparr>"



text \<open>
  An entry at a given second and nanosecond, and a stream of given entries. The zero value
  of \<open>time.Time\<close> is 1 January of year 1, 62135596800 seconds before the epoch.
\<close>

definition entryAt :: "int \<Rightarrow> int \<Rightarrow> string \<Rightarrow> LogEntry" where
  "entryAt s n line =
     \<lparr>LogEntry.Labels = None, LogEntry.Level = 1, Timestamp = \<lparr>unixSec = s, nsec = n\<rparr>, LogLine = line\<rparr>"

definition streamOf :: "LogEntry option list \<Rightarrow> LogStream" where
  "streamOf es = \<lparr>LogStream.Level = 1, LogStream.Labels = Some 0, Entries = es\<rparr>"

text \<open>A transport that fails, and a store holding two label maps that share a key.\<close>

definition failingTransport :: "error \<Rightarrow> Client" where
  "failingTransport err = \<lparr>Do = (\<lambda>req. Inl err)\<rparr>"

definition labelStore :: store where
  "labelStore = [[(''app'', ''api''), (''env'', ''dev'')], [(''env'', ''prod''), (''zone'', ''z1'')]]"

section \<open>Properties of the stream transformer\<close>

subsection \<open>The loops as maps over the retained streams and entries\<close>

lemma appendValues_eq:
  "appendValues es st = st\<lparr>Values := Values st @ map valuePair [e. Some e \<leftarrow> es]\<rparr>"
  by (induction es st rule: appendValues.induct) (simp_all add: valuePair_def)

lemma appendStreams_eq:
  "appendStreams ss pr = pr\<lparr>Streams := Streams pr @ map streamDTO (retainedStreams ss)\<rparr>"
  by (induction ss pr rule: appendStreams.induct)
     (simp_all add: retainedStreams_def streamDTO_def retainedEntries_def appendValues_eq)

lemma transform_Some:
  "transformLogStreamsToDTO rcv (Some ss) = Some \<lparr>Streams = map streamDTO (retainedStreams ss)\<rparr>"
  by (simp add: transformLogStreamsToDTO_def appendStreams_eq)

lemma retainedStreams_append: "retainedStreams (xs @ ys) = retainedStreams xs @ retainedStreams ys"
  by (simp add: retainedStreams_def)

lemma retainedStreams_None: "retainedStreams (None # ys) = retainedStreams ys"
  by (simp add: retainedStreams_def)

lemma retainedStreams_Some:
  "retainedStreams (Some s # ys) = (if Entries s = [] then retainedStreams ys else s # retainedStreams ys)"
  by (simp add: retainedStreams_def)

subsection \<open>Decimal strings and the range of UnixNano\<close>

lemma lt10_cases:
  "d < 10 \<Longrightarrow> d = 0 \<or> d = 1 \<or> d = 2 \<or> d = 3 \<or> d = 4 \<or> d = 5 \<or> d = 6 \<or> d = 7 \<or> d = 8 \<or> d = (9::nat)"
  by arith

lemma digits_nth_val: "d < 10 \<Longrightarrow> digitVal (digits ! d) = d"
  using lt10_cases [of d] by (auto simp: digits_def digitVal_def)

lemma digits_nth_isDigit: "d < 10 \<Longrightarrow> isDigit (digits ! d)"
  using lt10_cases [of d] by (auto simp: digits_def isDigit_def)

lemma digits_nth_zero: "d < 10 \<Longrightarrow> (digits ! d = CHR ''0'') = (d = 0)"
  using lt10_cases [of d] by (auto simp: digits_def)

lemma decimalValue_snoc: "decimalValue (ds @ [c]) = decimalValue ds * 10 + digitVal c"
  by (simp add: decimalValue_def)

lemma decimalValue_formatBits: "decimalValue (formatBits u) = u"
proof (induction u rule: formatBits.induct)
  case (1 u)
  show ?case
  proof (cases "u < 10")
    case True
    then show ?thesis
      by (simp add: formatBits.simps [of u] decimalValue_def digits_nth_val)
  next
    case False
    with 1 show ?thesis
      by (simp add: formatBits.simps [of u] decimalValue_snoc digits_nth_val)
  qed
qed

lemma formatBits_isDigit: "list_all isDigit (formatBits u)"
proof (induction u rule: formatBits.induct)
  case (1 u)
  then show ?case
    by (cases "u < 10") (simp_all add: formatBits.simps [of u] digits_nth_isDigit)
qed

lemma formatBits_nonempty: "formatBits u \<noteq> []"
  by (simp add: formatBits.simps [of u])

lemma formatBits_hd: "(hd (formatBits u) = CHR ''0'') = (u = 0)"
proof (induction u rule: formatBits.induct)
  case (1 u)
  show ?case
  proof (cases "u < 10")
    case True
    then show ?thesis
      by (simp add: formatBits.simps [of u] digits_nth_zero)
  next
    case False
    then have "u div 10 \<noteq> 0" by simp
    with False 1 show ?thesis
      by (simp add: formatBits.simps [of u] formatBits_nonempty)
  qed
qed

lemma canonicalDigits_formatBits: "canonicalDigits (formatBits u) u"
proof -
  have "length (formatBits u) = 1 \<or> hd (formatBits u) \<noteq> CHR ''0''"
  proof (cases "u = 0")
    case True
    then show ?thesis by (simp add: formatBits.simps [of 0])
  next
    case False
    then show ?thesis by (simp add: formatBits_hd)
  qed
  then show ?thesis
    by (simp add: canonicalDigits_def formatBits_nonempty formatBits_isDigit decimalValue_formatBits)
qed

lemma isDecimalOf_FormatInt10: "isDecimalOf (FormatInt10 n) n"
  by (simp add: isDecimalOf_def FormatInt10_def canonicalDigits_formatBits)

lemma FormatInt10_0: "FormatInt10 0 = ''0''"
  by (simp add: FormatInt10_def formatBits.simps digits_def)

lemma FormatInt10_1: "FormatInt10 1 = ''1''"
  by (simp add: FormatInt10_def formatBits.simps digits_def)

lemma wrap_int64_id: "inInt64 x \<Longrightarrow> wrap_int64 x = x"
  by (simp add: inInt64_def wrap_int64_def)

lemma UnixNano_exact: "inInt64 (nanosSinceEpoch t) \<Longrightarrow> UnixNano t = nanosSinceEpoch t"
  by (simp add: UnixNano_def nanosSinceEpoch_def wrap_int64_id)

subsection \<open>Claims about the transformer\<close>

text \<open>
  Claim C3. For the absent (nil) sequence of streams the result is absent (nil); for a
  present, empty sequence it is a present request whose stream list is empty.
\<close>

theorem transform_absent_or_empty:
  "transformLogStreamsToDTO rcv None = None \<and>
   transformLogStreamsToDTO rcv (Some []) = Some \<lparr>Streams = []\<rparr>"
  by (simp add: transformLogStreamsToDTO_def)

text \<open>
  Claim C5. The StreamDTOs of the output are those of the retained streams, in the order
  of the input, and the value pairs of each are those of its retained entries, in the
  order of the input: nothing is reordered, merged or sorted by timestamp.
\<close>

theorem transform_keeps_input_order:
  "transformLogStreamsToDTO rcv (Some ss) =
     Some \<lparr>Streams =
       map (\<lambda>s. \<lparr>Stream = LogStream.Labels s,
                 Values = map (\<lambda>e. (FormatInt10 (UnixNano (Timestamp e)), LogLine e)) (retainedEntries s)\<rparr>)
           (retainedStreams ss)\<rparr>"
proof -
  have "streamDTO = (\<lambda>s. \<lparr>Stream = LogStream.Labels s,
      Values = map (\<lambda>e. (FormatInt10 (UnixNano (Timestamp e)), LogLine e)) (retainedEntries s)\<rparr>)"
    by (rule ext) (simp add: streamDTO_def valuePair_def [abs_def])
  then show ?thesis
    by (simp add: transform_Some)
qed

theorem transform_keeps_input_order_witness:
  "transformLogStreamsToDTO (mockExchanger 204 [])
     (Some [Some (streamOf [Some (entryAt 0 2 ''late''), None, Some (entryAt 0 1 ''early''), Some (entryAt 0 1 ''early'')]),
            None, Some (streamOf []), Some (streamOf [Some (entryAt 0 0 ''first'')])]) =
   Some \<lparr>Streams = [\<lparr>Stream = Some 0, Values = [(''2'', ''late''), (''1'', ''early''), (''1'', ''early'')]\<rparr>,
                    \<lparr>Stream = Some 0, Values = [(''0'', ''first'')]\<rparr>]\<rparr>"
  using transform_keeps_input_order [of "mockExchanger 204 []"
     "[Some (streamOf [Some (entryAt 0 2 ''late''), None, Some (entryAt 0 1 ''early''), Some (entryAt 0 1 ''early'')]),
            None, Some (streamOf []), Some (streamOf [Some (entryAt 0 0 ''first'')])]"]
  by (simp add: retainedStreams_def retainedEntries_def streamOf_def entryAt_def
      FormatInt10_def UnixNano_def wrap_int64_def formatBits.simps digits_def)

text \<open>
  Claim C1, as amended. A stream that is absent or whose entry list is empty is skipped
  entirely: the output is that of the input without it, so it contributes nothing and
  is not represented by a StreamDTO.
\<close>

theorem transform_skips_absent_and_entryless_streams:
  "transformLogStreamsToDTO rcv (Some (xs @ None # ys)) = transformLogStreamsToDTO rcv (Some (xs @ ys)) \<and>
   (Entries s = [] \<longrightarrow>
      transformLogStreamsToDTO rcv (Some (xs @ Some s # ys)) = transformLogStreamsToDTO rcv (Some (xs @ ys)))"
  by (simp add: transform_Some retainedStreams_append retainedStreams_None retainedStreams_Some)

theorem transform_skips_absent_and_entryless_streams_witness:
  "Entries (streamOf []) = [] \<and>
   transformLogStreamsToDTO (mockExchanger 204 [])
       (Some ([Some (streamOf [Some (entryAt 0 1 ''a'')])] @ Some (streamOf []) # [None])) =
     transformLogStreamsToDTO (mockExchanger 204 []) (Some ([Some (streamOf [Some (entryAt 0 1 ''a'')])] @ [None])) \<and>
   transformLogStreamsToDTO (mockExchanger 204 []) (Some ([Some (streamOf [Some (entryAt 0 1 ''a'')])] @ [None])) =
     Some \<lparr>Streams = [\<lparr>Stream = Some 0, Values = [(''1'', ''a'')]\<rparr>]\<rparr>"
proof -
  have e: "Entries (streamOf []) = []"
    by (simp add: streamOf_def)
  have v: "transformLogStreamsToDTO (mockExchanger 204 []) (Some ([Some (streamOf [Some (entryAt 0 1 ''a'')])] @ [None])) =
     Some \<lparr>Streams = [\<lparr>Stream = Some 0, Values = [(''1'', ''a'')]\<rparr>]\<rparr>"
    by (simp add: transformLogStreamsToDTO_def streamOf_def entryAt_def
        FormatInt10_def UnixNano_def wrap_int64_def formatBits.simps digits_def)
  from transform_skips_absent_and_entryless_streams
         [of "mockExchanger 204 []" "[Some (streamOf [Some (entryAt 0 1 ''a'')])]" "[None]" "streamOf []"] e v
  show ?thesis
    by simp
qed

text \<open>
  The claim as it stands also wants a stream skipped when all its entries are absent.
  The test of line 179 looks at the length of the entry list, so such a stream is kept
  and becomes a StreamDTO without values.
\<close>

theorem transform_all_absent_entries_counterexample:
  "retainedEntries (streamOf [None, None]) = [] \<and>
   transformLogStreamsToDTO (mockExchanger 204 []) (Some [Some (streamOf [None, None])]) =
     Some \<lparr>Streams = [\<lparr>Stream = Some 0, Values = []\<rparr>]\<rparr> \<and>
   transformLogStreamsToDTO (mockExchanger 204 []) (Some [Some (streamOf [None, None])]) \<noteq>
     transformLogStreamsToDTO (mockExchanger 204 []) (Some [])"
  by (simp add: transformLogStreamsToDTO_def retainedEntries_def streamOf_def)

text \<open>
  Claim C4, as amended. For the \<open>j\<close>-th retained entry of the \<open>i\<close>-th retained stream,
  when the nanoseconds from the Unix epoch to its timestamp fit \<open>int64\<close>, the \<open>j\<close>-th
  value pair of the \<open>i\<close>-th StreamDTO is the base-10 string of these nanoseconds (no
  leading zero, a sign only when negative, \<open>0\<close> at the epoch and \<open>1\<close> one nanosecond
  later) and the log line as it is; there are as many StreamDTOs as retained streams
  and as many pairs as retained entries.
\<close>

theorem transform_value_pair:
  assumes "transformLogStreamsToDTO rcv (Some ss) = Some dto"
    and "i < length (retainedStreams ss)"
    and "j < length (retainedEntries (retainedStreams ss ! i))"
    and "e = retainedEntries (retainedStreams ss ! i) ! j"
    and "ns = nanosSinceEpoch (Timestamp e)"
    and "inInt64 ns"
  shows "length (Streams dto) = length (retainedStreams ss) \<and>
         length (Values (Streams dto ! i)) = length (retainedEntries (retainedStreams ss ! i)) \<and>
         Values (Streams dto ! i) ! j = (FormatInt10 ns, LogLine e) \<and>
         isDecimalOf (FormatInt10 ns) ns \<and>
         (ns = 0 \<longrightarrow> fst (Values (Streams dto ! i) ! j) = ''0'') \<and>
         (ns = 1 \<longrightarrow> fst (Values (Streams dto ! i) ! j) = ''1'')"
proof -
  from assms(1) have dto: "dto = \<lparr>Streams = map streamDTO (retainedStreams ss)\<rparr>"
    by (simp add: transform_Some)
  from assms(5,6) have nano: "UnixNano (Timestamp e) = ns"
    by (simp add: UnixNano_exact)
  from dto assms(2) have str: "Streams dto ! i = streamDTO (retainedStreams ss ! i)"
    by simp
  with assms(3,4) nano have pair: "Values (Streams dto ! i) ! j = (FormatInt10 ns, LogLine e)"
    by (simp add: streamDTO_def valuePair_def)
  from dto have len: "length (Streams dto) = length (retainedStreams ss)"
    by simp
  from str have len2: "length (Values (Streams dto ! i)) = length (retainedEntries (retainedStreams ss ! i))"
    by (simp add: streamDTO_def)
  from pair len len2 show ?thesis
    by (simp add: isDecimalOf_FormatInt10 FormatInt10_0 FormatInt10_1)
qed

theorem transform_value_pair_witness:
  "transformLogStreamsToDTO (mockExchanger 204 [])
     (Some [None, Some (streamOf [None, Some (entryAt 0 0 ''boot''), Some (entryAt 0 1 ''next'')])]) =
     Some \<lparr>Streams = [\<lparr>Stream = Some 0, Values = [(''0'', ''boot''), (''1'', ''next'')]\<rparr>]\<rparr> \<and>
   0 < length (retainedStreams [None, Some (streamOf [None, Some (entryAt 0 0 ''boot''), Some (entryAt 0 1 ''next'')])]) \<and>
   1 < length (retainedEntries
         (retainedStreams [None, Some (streamOf [None, Some (entryAt 0 0 ''boot''), Some (entryAt 0 1 ''next'')])] ! 0)) \<and>
   inInt64 (nanosSinceEpoch (Timestamp (entryAt 0 1 ''next''))) \<and>
   Values (Streams \<lparr>Streams = [\<lparr>Stream = Some 0, Values = [(''0'', ''boot''), (''1'', ''next'')]\<rparr>]\<rparr> ! 0) ! 1 =
     (''1'', ''next'') \<and>
   isDecimalOf ''1'' 1"
proof -
  let ?ss = "[None, Some (streamOf [None, Some (entryAt 0 0 ''boot''), Some (entryAt 0 1 ''next'')])]"
  let ?dto = "\<lparr>Streams = [\<lparr>Stream = Some 0, Values = [(''0'', ''boot''), (''1'', ''next'')]\<rparr>]\<rparr>"
  have h1: "transformLogStreamsToDTO (mockExchanger 204 []) (Some ?ss) = Some ?dto"
    by (simp add: transformLogStreamsToDTO_def streamOf_def entryAt_def
        FormatInt10_def UnixNano_def wrap_int64_def formatBits.simps digits_def)
  have h2: "0 < length (retainedStreams ?ss)"
    by (simp add: retainedStreams_def streamOf_def)
  have h3: "1 < length (retainedEntries (retainedStreams ?ss ! 0))"
    by (simp add: retainedStreams_def retainedEntries_def streamOf_def)
  have h4: "entryAt 0 1 ''next'' = retainedEntries (retainedStreams ?ss ! 0) ! 1"
    by (simp add: retainedStreams_def retainedEntries_def streamOf_def)
  have h5: "1 = nanosSinceEpoch (Timestamp (entryAt 0 1 ''next''))"
    by (simp add: nanosSinceEpoch_def entryAt_def)
  have h6: "inInt64 1"
    by (simp add: inInt64_def)
  from transform_value_pair [OF h1 h2 h3 h4 h5 h6] h1 h2 h3 h5 h6 show ?thesis
    by (simp add: FormatInt10_1 entryAt_def)
qed

text \<open>
  The claim as it stands covers every timestamp. The zero value of \<open>time.Time\<close> is out
  of the range of \<open>UnixNano\<close>: the pair then holds the wrapped number, which is not the
  nanoseconds since the epoch.
\<close>

theorem transform_zero_time_counterexample:
  "nanosSinceEpoch (Timestamp (entryAt (- 62135596800) 0 ''x'')) = - 62135596800000000000 \<and>
   transformLogStreamsToDTO (mockExchanger 204 []) (Some [Some (streamOf [Some (entryAt (- 62135596800) 0 ''x'')])]) =
     Some \<lparr>Streams = [\<lparr>Stream = Some 0, Values = [(''-6795364578871345152'', ''x'')]\<rparr>]\<rparr> \<and>
   \<not> isDecimalOf ''-6795364578871345152'' (- 62135596800000000000)"
proof -
  have a: "nanosSinceEpoch (Timestamp (entryAt (- 62135596800) 0 ''x'')) = - 62135596800000000000"
    by (simp add: nanosSinceEpoch_def entryAt_def)
  have b: "FormatInt10 (UnixNano (Timestamp (entryAt (- 62135596800) 0 ''x''))) = ''-6795364578871345152''"
    by (simp add: entryAt_def FormatInt10_def UnixNano_def wrap_int64_def formatBits.simps digits_def)
  have c: "transformLogStreamsToDTO (mockExchanger 204 []) (Some [Some (streamOf [Some (entryAt (- 62135596800) 0 ''x'')])]) =
     Some \<lparr>Streams = [\<lparr>Stream = Some 0, Values = [(''-6795364578871345152'', ''x'')]\<rparr>]\<rparr>"
    by (simp add: transformLogStreamsToDTO_def streamOf_def b) (simp add: entryAt_def)
  have d: "\<not> isDecimalOf ''-6795364578871345152'' (- 62135596800000000000)"
    by (simp add: isDecimalOf_def canonicalDigits_def decimalValue_def digitVal_def)
  from a c d show ?thesis by simp
qed

section \<open>Properties of the exchanger\<close>

lemma readChunks_eq: "readChunks cs acc = acc @ concat cs"
  by (induction cs arbitrary: acc) simp_all

lemma io_ReadAll_eq: "io_ReadAll (Reader chunks err) = (concat chunks, err)"
  by (simp add: readChunks_eq)

lemma isSuccessHTTPCode_iff: "isSuccessHTTPCode rcv code = (200 \<le> code \<and> code < 300)"
  by (auto simp: isSuccessHTTPCode_def)

lemma newPushRequest_Inr:
  "newPushRequest env rcv streams = Inr req \<Longrightarrow>
   url_Parse env (lokiAddress rcv @ ''/loki/api/v1/push'') = None \<and>
   Header req =
     [(''Content-Type'', ''application/json'')] @
     (if useGzipCompression rcv then [(''Content-Encoding'', ''gzip'')] else []) @
     (if username rcv \<noteq> [] \<and> password rcv \<noteq> []
      then [(''Authorization'', ''Basic '' @ base64_Encode env (username rcv @ '':'' @ password rcv))] else [])"
  by (auto simp: newPushRequest_def http_NewRequest_def Header_Add_def Request_SetBasicAuth_def Let_def
      split: option.splits if_splits)

lemma newPushRequest_isl:
  "isl (newPushRequest env rcv streams) = (url_Parse env (lokiAddress rcv @ ''/loki/api/v1/push'') \<noteq> None)"
  by (cases "url_Parse env (lokiAddress rcv @ ''/loki/api/v1/push'')")
     (simp_all add: newPushRequest_def http_NewRequest_def Let_def)

lemma newPushRequest_ignores_encoder_error:
  "newPushRequest (env\<lparr>json_Encode := (\<lambda>v. (fst (json_Encode env v), e v))\<rparr>) rcv streams =
   newPushRequest env rcv streams"
  by (cases "url_Parse env (lokiAddress rcv @ ''/loki/api/v1/push'')")
     (simp_all add: newPushRequest_def encodeStreams_def http_NewRequest_def Request_SetBasicAuth_def
        split_beta Let_def)

lemma push_ignores_encoder_error:
  "Push (env\<lparr>json_Encode := (\<lambda>v. (fst (json_Encode env v), e v))\<rparr>) rcv streams = Push env rcv streams"
  by (simp add: Push_def newPushRequest_ignores_encoder_error)

subsection \<open>Claims about Push, Ping and SetBasicAuth\<close>




text \<open>
  Claim C6. When the request was built and the transport delivered a response, \<open>Push\<close>
  returns nil exactly when the status code is in [200, 300); for any other code it
  returns an error whose message holds the status code in decimal and everything
  \<open>io.ReadAll\<close> read of the body.
\<close>

theorem push_status_code:
  assumes "newPushRequest env rcv streams = Inr req"
    and "Do (restClient rcv) req = Inr resp"
    and "Response.Body resp = Reader chunks rerr"
  shows "(Push env rcv streams = None) = (200 \<le> StatusCode resp \<and> StatusCode resp < 300) \<and>
         (\<not> (200 \<le> StatusCode resp \<and> StatusCode resp < 300) \<longrightarrow>
            Push env rcv streams =
              Some (''unexpected response code [code='' @ FormatInt10 (StatusCode resp) @
                    ''], message: '' @ concat chunks))"
  using assms by (simp add: Push_def isSuccessHTTPCode_iff readChunks_eq)

theorem push_status_code_witness:
  "newPushRequest mockEnv (mockExchanger 500 [''internal '', ''error'']) (Some []) =
     Inr \<lparr>Method = ''POST'', URL = ''http://loki:3100/loki/api/v1/push'',
          Header = [(''Content-Type'', ''application/json'')], Body = ''{}'', Timeout = None\<rparr> \<and>
   Push mockEnv (mockExchanger 500 [''internal '', ''error'']) (Some []) =
     Some ''unexpected response code [code=500], message: internal error''"
proof -
  let ?rcv = "mockExchanger 500 [''internal '', ''error'']"
  let ?req = "\<lparr>Method = ''POST'', URL = ''http://loki:3100/loki/api/v1/push'',
          Header = [(''Content-Type'', ''application/json'')], Body = ''{}'', Timeout = None\<rparr>"
  let ?resp = "\<lparr>StatusCode = 500, Body = Reader [''internal '', ''error''] None\<rparr>"
  have h1: "newPushRequest mockEnv ?rcv (Some []) = Inr ?req"
    by (simp add: newPushRequest_def encodeStreams_def http_NewRequest_def Header_Add_def
        mockEnv_def mockExchanger_def)
  have h2: "Do (restClient ?rcv) ?req = Inr ?resp"
    by (simp add: mockExchanger_def mockTransport_def)
  have h3: "Response.Body ?resp = Reader [''internal '', ''error''] None"
    by simp
  have f: "FormatInt10 500 = ''500''"
    by (simp add: FormatInt10_def formatBits.simps digits_def)
  from push_status_code [OF h1 h2 h3] h1 f show ?thesis
    by simp
qed

text \<open>
  Claim C7. When the request was built and the transport delivered a response, \<open>Ping\<close>
  returns a PongResponse and no error, with \<open>IsReady\<close> true exactly when the status code
  is in [200, 300): a status outside that range is not an error.
\<close>

theorem ping_ready_flag:
  assumes "http_NewRequest env (Some (requestTimeout env)) ''GET'' (lokiAddress rcv @ ''/ready'') [] = Inr req"
    and "Do (restClient rcv) req = Inr resp"
  shows "Ping env rcv = (Some \<lparr>IsReady = (200 \<le> StatusCode resp \<and> StatusCode resp < 300)\<rparr>, None)"
  using assms by (simp add: Ping_def isSuccessHTTPCode_iff Let_def)

theorem ping_ready_flag_witness:
  "http_NewRequest mockEnv (Some (requestTimeout mockEnv)) ''GET'' (lokiAddress (mockExchanger 503 []) @ ''/ready'') [] =
     Inr \<lparr>Method = ''GET'', URL = ''http://loki:3100/ready'', Header = [], Body = [], Timeout = Some 5\<rparr> \<and>
   Ping mockEnv (mockExchanger 503 []) = (Some \<lparr>IsReady = False\<rparr>, None)"
proof -
  let ?rcv = "mockExchanger 503 []"
  let ?req = "\<lparr>Method = ''GET'', URL = ''http://loki:3100/ready'', Header = [], Body = [], Timeout = Some 5\<rparr>"
  let ?resp = "\<lparr>StatusCode = 503, Body = Reader [] None\<rparr>"
  have h1: "http_NewRequest mockEnv (Some (requestTimeout mockEnv)) ''GET'' (lokiAddress ?rcv @ ''/ready'') [] = Inr ?req"
    by (simp add: http_NewRequest_def requestTimeout_def mockEnv_def mockExchanger_def)
  have h2: "Do (restClient ?rcv) ?req = Inr ?resp"
    by (simp add: mockExchanger_def mockTransport_def)
  from ping_ready_flag [OF h1 h2] h1 show ?thesis
    by simp
qed

text \<open>
  Claim C10. \<open>Ping\<close> returns either a PongResponse and the nil error, or the nil pointer
  and an error; never both nil and never both non-nil.
\<close>

theorem ping_result_or_error:
  "(\<exists>pong. Ping env rcv = (Some pong, None)) \<or> (\<exists>err. Ping env rcv = (None, Some err))"
  by (simp add: Ping_def Let_def split: sum.splits)

theorem ping_result_or_error_witness:
  "Ping mockEnv ((mockExchanger 204 [])\<lparr>restClient := failingTransport ''context deadline exceeded''\<rparr>) =
     (None, Some ''pong is not received: context deadline exceeded'') \<and>
   Ping mockEnv (mockExchanger 204 []) = (Some \<lparr>IsReady = True\<rparr>, None)"
  using ping_result_or_error [of mockEnv "mockExchanger 204 []"]
  by (simp add: Ping_def http_NewRequest_def mockEnv_def mockExchanger_def mockTransport_def
      failingTransport_def isSuccessHTTPCode_def)

text \<open>
  Claim C8. The request that \<open>Push\<close> hands to the transport carries an Authorization
  header if and only if the stored username and the stored password are both non-empty,
  and then it is the Basic credentials of the two; \<open>SetBasicAuth\<close> stores whatever it
  is given over whatever was stored, and no choice of credentials, partial ones
  included, makes the construction of the request fail.
\<close>

theorem push_basic_auth:
  assumes "newPushRequest env rcv streams = Inr req"
  shows "(Header_Values req ''Authorization'' \<noteq> []) = (username rcv \<noteq> [] \<and> password rcv \<noteq> []) \<and>
         (username rcv \<noteq> [] \<and> password rcv \<noteq> [] \<longrightarrow>
            Header_Values req ''Authorization'' =
              [''Basic '' @ base64_Encode env (username rcv @ '':'' @ password rcv)]) \<and>
         username (SetBasicAuth rcv u p) = u \<and> password (SetBasicAuth rcv u p) = p \<and>
         \<not> isl (newPushRequest env (SetBasicAuth rcv u p) streams)"
proof -
  from assms have "\<not> isl (newPushRequest env rcv streams)"
    by simp
  then have "\<not> isl (newPushRequest env (SetBasicAuth rcv u p) streams)"
    by (simp add: newPushRequest_isl SetBasicAuth_def)
  with newPushRequest_Inr [OF assms] show ?thesis
    by (simp add: Header_Values_def SetBasicAuth_def)
qed

theorem push_basic_auth_witness:
  "newPushRequest mockEnv (SetBasicAuth (mockExchanger 204 []) ''u'' ''p'') (Some []) =
     Inr \<lparr>Method = ''POST'', URL = ''http://loki:3100/loki/api/v1/push'',
          Header = [(''Content-Type'', ''application/json''), (''Authorization'', ''Basic u:p'')],
          Body = ''{}'', Timeout = None\<rparr> \<and>
   Header_Values \<lparr>Method = ''POST'', URL = ''http://loki:3100/loki/api/v1/push'',
          Header = [(''Content-Type'', ''application/json''), (''Authorization'', ''Basic u:p'')],
          Body = ''{}'', Timeout = None\<rparr> ''Authorization'' = [''Basic u:p''] \<and>
   username (SetBasicAuth (SetBasicAuth (mockExchanger 204 []) ''u'' ''p'') ''v'' []) = ''v'' \<and>
   password (SetBasicAuth (SetBasicAuth (mockExchanger 204 []) ''u'' ''p'') ''v'' []) = [] \<and>
   \<not> isl (newPushRequest mockEnv (SetBasicAuth (SetBasicAuth (mockExchanger 204 []) ''u'' ''p'') ''v'' []) (Some []))"
proof -
  let ?rcv = "SetBasicAuth (mockExchanger 204 []) ''u'' ''p''"
  let ?req = "\<lparr>Method = ''POST'', URL = ''http://loki:3100/loki/api/v1/push'',
          Header = [(''Content-Type'', ''application/json''), (''Authorization'', ''Basic u:p'')],
          Body = ''{}'', Timeout = None\<rparr>"
  have h1: "newPushRequest mockEnv ?rcv (Some []) = Inr ?req"
    by (simp add: newPushRequest_def encodeStreams_def http_NewRequest_def Header_Add_def
        Request_SetBasicAuth_def SetBasicAuth_def mockEnv_def mockExchanger_def)
  have c: "username ?rcv = ''u'' \<and> password ?rcv = ''p'' \<and> base64_Encode mockEnv ''u:p'' = ''u:p''"
    by (simp add: SetBasicAuth_def mockEnv_def)
  from push_basic_auth [OF h1, of "''v''" "[]"] h1 c show ?thesis
    by simp
qed

text \<open>\<open>Ping\<close> returns a PongResponse exactly when the request was built and the transport answered.\<close>

lemma ping_pong_iff_answered:
  "(\<exists>pong. Ping env rcv = (Some pong, None)) =
   (\<exists>req resp. http_NewRequest env (Some (requestTimeout env)) ''GET'' (lokiAddress rcv @ ''/ready'') [] = Inr req \<and>
      Do (restClient rcv) req = Inr resp)"
  by (auto simp: Ping_def Let_def split: sum.splits)

section \<open>Properties of the label utilities\<close>

lemma deref_list_update:
  "src \<noteq> Some dst \<Longrightarrow> deref (h[dst := m]) src = deref h src"
  by (cases src) (auto simp: deref_def nth_list_update)

lemma map_of_fold_update:
  "map_of (fold (\<lambda>k m. AList.update k (f k) m) keys m0) x =
     (if x \<in> set keys then Some (f x) else map_of m0 x)"
  by (induction keys arbitrary: m0) (simp_all add: update_conv')

lemma map_of_fold_update_keys:
  "map_of (fold (\<lambda>k m. AList.update k (map_index src k) m) (map fst src) m0) = map_of m0 ++ map_of src"
proof (rule ext)
  fix x
  show "map_of (fold (\<lambda>k m. AList.update k (map_index src k) m) (map fst src) m0) x =
        (map_of m0 ++ map_of src) x"
  proof (cases "map_of src x")
    case None
    then have "x \<notin> set (map fst src)"
      by (simp add: map_of_eq_None_iff)
    with None show ?thesis
      by (simp add: map_of_fold_update map_add_def)
  next
    case (Some v)
    then have "x \<in> set (map fst src)"
      by (metis map_of_eq_None_iff option.distinct(1) set_map)
    with Some show ?thesis
      by (simp add: map_of_fold_update map_add_def map_index_def)
  qed
qed

lemma copyKeys_eq:
  "dst < length h \<Longrightarrow> src \<noteq> Some dst \<Longrightarrow>
   copyKeys keys src dst h =
     h[dst := fold (\<lambda>k m. AList.update k (map_index (deref h src) k) m) keys (h ! dst)]"
proof (induction keys arbitrary: h)
  case Nil
  then show ?case by simp
next
  case (Cons key keys)
  let ?h = "h[dst := AList.update key (map_index (deref h src) key) (h ! dst)]"
  from Cons.prems have a: "map_assign h dst key (map_index (deref h src) key) = ?h"
    by (simp add: map_assign_def)
  from Cons.prems have b: "dst < length ?h" "deref ?h src = deref h src"
    by (simp_all add: deref_list_update)
  from Cons.IH [OF b(1) Cons.prems(2)] a b Cons.prems(1) show ?case
    by simp
qed

lemma mergeLoop_eq:
  "dst < length h \<Longrightarrow> list_all (\<lambda>src. src \<noteq> Some dst) srcs \<Longrightarrow>
   \<exists>m. mergeLoop srcs dst h = h[dst := m] \<and>
       map_of m = foldl (++) (map_of (h ! dst)) (map (\<lambda>src. map_of (deref h src)) srcs)"
proof (induction srcs arbitrary: h)
  case Nil
  have "mergeLoop [] dst h = h[dst := h ! dst]"
    by simp
  then show ?case
    by (intro exI [of _ "h ! dst"]) simp
next
  case (Cons src srcs)
  let ?m = "fold (\<lambda>k m. AList.update k (map_index (deref h src) k) m) (map fst (deref h src)) (h ! dst)"
  let ?h = "h[dst := ?m]"
  from Cons.prems have src: "src \<noteq> Some dst" and rest: "list_all (\<lambda>src. src \<noteq> Some dst) srcs"
    by simp_all
  from Cons.prems(1) src have step: "copyKeys (map fst (deref h src)) src dst h = ?h"
    by (rule copyKeys_eq)
  from Cons.prems(1) have len: "dst < length ?h" by simp
  from rest have same: "map (\<lambda>src. map_of (deref ?h src)) srcs = map (\<lambda>src. map_of (deref h src)) srcs"
    by (induction srcs) (simp_all add: deref_list_update)
  from Cons.prems(1) have at: "map_of (?h ! dst) = map_of (h ! dst) ++ map_of (deref h src)"
    by (simp add: map_of_fold_update_keys)
  from Cons.IH [OF len rest] obtain m where ih1: "mergeLoop srcs dst ?h = ?h[dst := m]"
    and ih2: "map_of m = foldl (++) (map_of (?h ! dst)) (map (\<lambda>src. map_of (deref ?h src)) srcs)"
    by blast
  from ih1 step have one: "mergeLoop (src # srcs) dst h = h[dst := m]"
    by simp
  from ih2 same at have two: "map_of m =
        foldl (++) (map_of (h ! dst)) (map (\<lambda>src. map_of (deref h src)) (src # srcs))"
    by simp
  from one two show ?case
    by blast
qed

lemma lastContaining_snoc:
  "lastContaining (ms @ [m]) k = (case map_of m k of None \<Rightarrow> lastContaining ms k | Some v \<Rightarrow> Some v)"
  by (auto simp: lastContaining_def Let_def split: option.splits)

lemma unionLeftToRight_snoc: "unionLeftToRight (ms @ [m]) = unionLeftToRight ms ++ map_of m"
  by (simp add: unionLeftToRight_def)

lemma unionLeftToRight_last: "unionLeftToRight ms k = lastContaining ms k"
proof (induction ms rule: rev_induct)
  case Nil
  then show ?case by (simp add: unionLeftToRight_def lastContaining_def)
next
  case (snoc m ms)
  then show ?case
    by (simp add: unionLeftToRight_snoc lastContaining_snoc map_add_def split: option.splits)
qed

lemma validRef_fresh: "validRef h src \<Longrightarrow> src \<noteq> Some (length h)"
  by (auto simp: validRef_def)

lemma deref_append: "validRef h src \<Longrightarrow> deref (h @ [m]) src = deref h src"
  by (auto simp: validRef_def deref_def nth_append split: option.splits)

text \<open>
  Claim C9. For inputs that are nil or point into the store, \<open>copyAndMergeLabels\<close>
  returns a reference to a new map object; every map object that existed before the
  call, so every input, is unchanged; the new map is the union of the inputs from left
  to right, and the value of each key is the one of the last input that contains it.
\<close>

theorem copyAndMergeLabels_last_write_wins:
  assumes "list_all (validRef h) srcs"
    and "copyAndMergeLabels h srcs = (h', dst)"
  shows "dst = Some (length h) \<and> length h' = Suc (length h) \<and> take (length h) h' = h \<and>
         list_all (\<lambda>src. deref h' src = deref h src) srcs \<and>
         map_of (deref h' dst) = unionLeftToRight (map (deref h) srcs) \<and>
         map_of (deref h' dst) k = lastContaining (map (deref h) srcs) k"
proof -
  let ?h1 = "h @ [[]]"
  let ?d = "length h"
  from assms(2) have dst: "dst = Some ?d" and h': "h' = mergeLoop srcs ?d ?h1"
    by (simp_all add: copyAndMergeLabels_def make_map_def Let_def)
  have len: "?d < length ?h1" by simp
  from assms(1) have fresh: "list_all (\<lambda>src. src \<noteq> Some ?d) srcs"
    by (induction srcs) (simp_all add: validRef_fresh)
  from mergeLoop_eq [OF len fresh] h' obtain m where shape: "h' = ?h1[?d := m]"
    and content: "map_of m = foldl (++) (map_of (?h1 ! ?d)) (map (\<lambda>src. map_of (deref ?h1 src)) srcs)"
    by blast
  from shape have shape': "h' = h @ [m]"
    by simp
  then have l: "length h' = Suc ?d" and t: "take ?d h' = h" and at: "h' ! ?d = m"
    by simp_all
  from assms(1) have same1: "map (\<lambda>src. map_of (deref ?h1 src)) srcs = map map_of (map (deref h) srcs)"
    by (induction srcs) (simp_all add: deref_append)
  from content same1 at have u: "map_of (h' ! ?d) = unionLeftToRight (map (deref h) srcs)"
    by (simp add: unionLeftToRight_def)
  from l dst have d: "deref h' dst = h' ! ?d"
    by (simp add: deref_def)
  have keep: "list_all (\<lambda>src. deref h' src = deref h src) srcs"
  proof -
    have "\<And>src. validRef h src \<Longrightarrow> deref h' src = deref h src"
    proof -
      fix src assume "validRef h src"
      then have "deref (h @ [m]) src = deref h src" by (rule deref_append)
      with shape' show "deref h' src = deref h src" by simp
    qed
    with assms(1) show ?thesis
      by (induction srcs) simp_all
  qed
  from dst l t keep u d show ?thesis
    by (simp add: unionLeftToRight_last)
qed

theorem copyAndMergeLabels_last_write_wins_witness:
  "list_all (validRef labelStore) [Some 0, None, Some 1] \<and>
   copyAndMergeLabels labelStore [Some 0, None, Some 1] =
     (labelStore @ [[(''app'', ''api''), (''env'', ''prod''), (''zone'', ''z1'')]], Some 2) \<and>
   take (length labelStore) (labelStore @ [[(''app'', ''api''), (''env'', ''prod''), (''zone'', ''z1'')]]) = labelStore \<and>
   map_of (deref (labelStore @ [[(''app'', ''api''), (''env'', ''prod''), (''zone'', ''z1'')]]) (Some 2)) ''env'' =
     Some ''prod'' \<and>
   lastContaining (map (deref labelStore) [Some 0, None, Some 1]) ''env'' = Some ''prod''"
proof -
  let ?h' = "labelStore @ [[(''app'', ''api''), (''env'', ''prod''), (''zone'', ''z1'')]]"
  have h1: "list_all (validRef labelStore) [Some 0, None, Some 1]"
    by (simp add: validRef_def labelStore_def)
  have h2: "copyAndMergeLabels labelStore [Some 0, None, Some 1] = (?h', Some 2)"
    by (simp add: copyAndMergeLabels_def make_map_def labelStore_def deref_def map_assign_def map_index_def)
  have l: "lastContaining (map (deref labelStore) [Some 0, None, Some 1]) ''env'' = Some ''prod''"
    by (simp add: lastContaining_def deref_def labelStore_def)
  from copyAndMergeLabels_last_write_wins [OF h1 h2, of "''env''"]
  have t: "take (length labelStore) ?h' = labelStore"
    and v: "map_of (deref ?h' (Some 2)) ''env'' =
            lastContaining (map (deref labelStore) [Some 0, None, Some 1]) ''env''"
    by blast+
  from v l have v': "map_of (deref ?h' (Some 2)) ''env'' = Some ''prod''"
    by (rule trans)
  from h1 h2 t v' l show ?thesis
    by blast
qed

end
